theory Spec2Isabelle
  imports Main "HOL-Library.Sublist"
begin

section \<open>Python strings\<close>

text \<open>
  A Python \<open>str\<close> is modelled as a \<open>string\<close>, each \<open>char\<close> standing for one code point
  below 256 (ASCII and Latin-1). On that range \<open>str.lower()\<close> maps \<open>A\<close>..\<open>Z\<close> and the
  upper-case Latin-1 letters (192..222 except the multiplication sign 215) to the code
  point 32 above, and leaves every other code point alone.
\<close>

definition lower_char :: "char \<Rightarrow> char" where
  "lower_char c =
     (let n = (of_char c :: nat)
      in if (65 \<le> n \<and> n \<le> 90) \<or> (192 \<le> n \<and> n \<le> 222 \<and> n \<noteq> 215)
         then char_of (n + 32) else c)"

definition lower :: "string \<Rightarrow> string" where
  "lower s = map lower_char s"

text \<open>
  The characters \<open>str.strip()\<close> removes: the code points below 256 for which
  \<open>str.isspace()\<close> holds (9..13, 28..32, 133 and 160).
\<close>

definition isspace :: "char \<Rightarrow> bool" where
  "isspace c =
     (let n = (of_char c :: nat)
      in (9 \<le> n \<and> n \<le> 13) \<or> (28 \<le> n \<and> n \<le> 32) \<or> n = 133 \<or> n = 160)"

definition strip :: "string \<Rightarrow> string" where
  "strip s = rev (dropWhile isspace (rev (dropWhile isspace s)))"

text \<open>Python's \<open>w in t\<close> on strings: \<open>w\<close> occurs in \<open>t\<close> as a contiguous block.\<close>

fun str_in :: "string \<Rightarrow> string \<Rightarrow> bool" where
  "str_in w [] = (w = [])"
| "str_in w (c # t) = (prefix w (c # t) \<or> str_in w t)"

text \<open>Python's \<open>t.startswith(w)\<close>.\<close>

definition startswith :: "string \<Rightarrow> string \<Rightarrow> bool" where
  "startswith t w = prefix w t"

section \<open>Command interpreter\<close>

text \<open>
  \<open>parse_start_stop_command\<close> of \<open>controlcentre.py\<close>. The result is the pair
  \<open>(action, target)\<close>, \<open>None\<close> being Python's \<open>None\<close>. The local variables \<open>action\<close>
  and \<open>target\<close> are assigned in the source's order.
\<close>

definition start_verbs :: "string list" where
  "start_verbs = [''start'', ''run'', ''open'', ''launch'']"

definition stop_verbs :: "string list" where
  "stop_verbs = [''stop'', ''close'', ''terminate'', ''quit'', ''shutdown'', ''end'']"

definition hand_nouns :: "string list" where
  "hand_nouns = [''hand'', ''servo'', ''object'', ''finger'']"

definition any_in :: "string list \<Rightarrow> string \<Rightarrow> bool" where
  "any_in ws t = list_ex (\<lambda>w. str_in w t) ws"

definition parse_start_stop_command :: "string \<Rightarrow> string option \<times> string option" where
  "parse_start_stop_command text =
     (if text = [] then (None, None)
      else
        let t = lower text;
            action = None;
            action = (if any_in start_verbs t then Some ''start'' else action);
            action = (if any_in stop_verbs t then Some ''stop'' else action);
            target =
              (if str_in ''chat'' t \<or> str_in ''assistant'' t \<or> str_in ''bot'' t
                 then Some ''chatbot''
               else if str_in ''face'' t \<or> str_in ''recognize'' t \<or> str_in ''recognition'' t
                 then Some ''face''
               else if any_in hand_nouns t
                 then Some ''hand''
               else None)
        in if str_in ''status'' t then (Some ''status'', None) else (action, target))"

section \<open>Noun groups of the grammar\<close>

text \<open>
  The first two noun groups are written as chains of \<open>or\<close> in the source; the lists below
  name them so that statements about the grammar can refer to a group as a whole.
\<close>

definition chat_nouns :: "string list" where
  "chat_nouns = [''chat'', ''assistant'', ''bot'']"

definition face_nouns :: "string list" where
  "face_nouns = [''face'', ''recognize'', ''recognition'']"

section \<open>Exceptions and the operating system\<close>

text \<open>
  The exceptions the controller distinguishes. \<open>KeyboardInterrupt\<close> derives from
  \<open>BaseException\<close> only, so a clause \<open>except Exception\<close> does not catch it; every other
  exception of the model derives from \<open>Exception\<close>.
\<close>

datatype exn = TimeoutExpired | TypeError | OSError | OtherException | KeyboardInterrupt

fun is_Exception :: "exn \<Rightarrow> bool" where
  "is_Exception KeyboardInterrupt = False"
| "is_Exception _ = True"

text \<open>
  A \<open>subprocess.Popen\<close> object is identified by a number. What the operating system
  answers to each call is given by an environment: \<open>popen\<close> is
  \<open>subprocess.Popen([PYTHON_EXE, script_path], cwd=BASE_DIR)\<close> (the new process object
  or the exception raised), \<open>poll\<close> is \<open>proc.poll()\<close> (\<open>None\<close> while the process has
  not exited, its return code afterwards), and \<open>terminate\<close>, \<open>wait\<close> and \<open>kill\<close> give
  the exception raised by \<open>proc.terminate()\<close>, \<open>proc.wait(timeout=2.0)\<close> and
  \<open>proc.kill()\<close>, or \<open>None\<close> when the call returns. \<open>path_join\<close> is the platform's
  \<open>os.path.join\<close> and \<open>path_exists\<close> is \<open>os.path.exists\<close>.
\<close>

type_synonym handle = nat

record os_env =
  BASE_DIR :: string
  path_join :: "string \<Rightarrow> string \<Rightarrow> string"
  path_exists :: "string \<Rightarrow> bool"
  popen :: "string \<Rightarrow> exn + handle"
  poll :: "handle \<Rightarrow> int option"
  terminate :: "handle \<Rightarrow> exn option"
  wait :: "handle \<Rightarrow> exn option"
  kill :: "handle \<Rightarrow> exn option"

text \<open>The calls that act on processes, in the order they were made.\<close>

datatype event = Popen string | Terminate handle | Wait handle | Kill handle

text \<open>
  The controller's state: the global dictionary \<open>running_procs\<close> and the process calls
  made so far. Console output is not modelled.
\<close>

record state =
  running_procs :: "string \<rightharpoonup> handle"
  effects :: "event list"

definition emit :: "event \<Rightarrow> state \<Rightarrow> state" where
  "emit ev s = s\<lparr>effects := effects s @ [ev]\<rparr>"

section \<open>Process registry\<close>

definition MODULE_NAMES :: "string \<rightharpoonup> string" where
  "MODULE_NAMES =
     [''face'' \<mapsto> ''facerecognition.py'',
      ''hand'' \<mapsto> ''objectdetection.py'',
      ''object'' \<mapsto> ''objectdetection.py'',
      ''servo'' \<mapsto> ''objectdetection.py'']"

text \<open>
  A function of the controller either returns a value (\<open>Inr\<close>) or lets an exception
  escape to its caller (\<open>Inl\<close>).
\<close>

text \<open>The \<open>try\<close> block of \<open>start_subprocess_module\<close> (lines 66 to 73).\<close>

definition spawn_module :: "os_env \<Rightarrow> string \<Rightarrow> string \<Rightarrow> state \<Rightarrow> (exn + handle option) \<times> state" where
  "spawn_module env key_lower script_path s =
     (case popen env script_path of
        Inr p \<Rightarrow>
          (Inr (Some p),
           (emit (Popen script_path) s)\<lparr>running_procs := (running_procs s)(key_lower \<mapsto> p)\<rparr>)
      | Inl e \<Rightarrow>
          (if is_Exception e then (Inr None, emit (Popen script_path) s)
           else (Inl e, emit (Popen script_path) s)))"

definition start_subprocess_module :: "os_env \<Rightarrow> string \<Rightarrow> state \<Rightarrow> (exn + handle option) \<times> state" where
  "start_subprocess_module env key s =
     (let key_lower = lower key in
      case MODULE_NAMES key_lower of
        None \<Rightarrow> (Inr None, s)
      | Some script \<Rightarrow>
          if script = [] then (Inr None, s)
          else
            let script_path = path_join env (BASE_DIR env) script in
            if \<not> path_exists env script_path then (Inr None, s)
            else
              (case running_procs s key_lower of
                 Some proc \<Rightarrow>
                   if poll env proc = None then (Inr (Some proc), s)
                   else spawn_module env key_lower script_path s
               | None \<Rightarrow> spawn_module env key_lower script_path s))"

text \<open>
  The handler \<open>except Exception\<close> of \<open>stop_subprocess_module\<close> (lines 89 to 91) and the
  two statements after the \<open>if\<close> (lines 92 and 93).
\<close>

definition stop_failed :: "exn \<Rightarrow> state \<Rightarrow> (exn + bool) \<times> state" where
  "stop_failed e s = (if is_Exception e then (Inr False, s) else (Inl e, s))"

definition stop_finish :: "string \<Rightarrow> state \<Rightarrow> (exn + bool) \<times> state" where
  "stop_finish key_lower s = (Inr True, s\<lparr>running_procs := (running_procs s)(key_lower := None)\<rparr>)"

definition stop_subprocess_module :: "os_env \<Rightarrow> string \<Rightarrow> state \<Rightarrow> (exn + bool) \<times> state" where
  "stop_subprocess_module env key s =
     (let key_lower = lower key in
      case running_procs s key_lower of
        None \<Rightarrow> (Inr False, s)
      | Some proc \<Rightarrow>
          if poll env proc = None then
            (let s1 = emit (Terminate proc) s in
             case terminate env proc of
               Some e \<Rightarrow> stop_failed e s1
             | None \<Rightarrow>
                 (let s2 = emit (Wait proc) s1 in
                  case wait env proc of
                    None \<Rightarrow> stop_finish key_lower s2
                  | Some e \<Rightarrow>
                      if e = TimeoutExpired then
                        (let s3 = emit (Kill proc) s2 in
                         case kill env proc of
                           None \<Rightarrow> stop_finish key_lower s3
                         | Some e' \<Rightarrow> stop_failed e' s3)
                      else stop_failed e s2))
          else stop_finish key_lower s)"

text \<open>
  The state reported for a key by the status branch of \<open>main_voice_controller\<close>
  (lines 207 and 208).
\<close>

definition status_of :: "os_env \<Rightarrow> state \<Rightarrow> string \<Rightarrow> string" where
  "status_of env s k =
     (case running_procs s k of
        Some p \<Rightarrow> if poll env p = None then ''running'' else ''stopped''
      | None \<Rightarrow> ''stopped'')"

section \<open>Wake gate\<close>

text \<open>
  What one call of \<open>dynamicbot.listen\<close> does: it returns a text or \<open>None\<close>, or raises.
  One pass of the polling loop makes the call with keyword arguments and, when that
  raises \<open>TypeError\<close>, a second call without arguments; an attempt is the pair of the two
  outcomes, the second being used in that case only.
\<close>

datatype listen_result = Returns "string option" | Raises exn

type_synonym attempt = "listen_result \<times> listen_result"

text \<open>
  Lines 135 to 141: the text of a pass, or the exception that leaves the function (one
  raised by the second call, inside the handler, or one not derived from \<open>Exception\<close>).
\<close>

fun heard_text :: "attempt \<Rightarrow> exn + string option" where
  "heard_text (Returns x, fb) = Inr x"
| "heard_text (Raises e, fb) =
     (if e = TypeError then (case fb of Returns x \<Rightarrow> Inr x | Raises e' \<Rightarrow> Inl e')
      else if is_Exception e then Inr None
      else Inl e)"

text \<open>Lines 143 and 144: the test applied to a text that was heard.\<close>

definition wake_match :: "string \<Rightarrow> string \<Rightarrow> bool" where
  "wake_match wakeword text =
     (let txt = strip (lower text)
      in txt = wakeword \<or> startswith txt (wakeword @ '' ''))"

text \<open>
  The \<open>while True\<close> loop, run on the outcomes of the passes to come. The result is
  \<open>None\<close> when the outcomes are used up and the loop would listen again.
\<close>

fun fallback_loop :: "string \<Rightarrow> int option \<Rightarrow> int \<Rightarrow> attempt list \<Rightarrow> (exn + bool) option" where
  "fallback_loop wakeword max_attempts attempts ps =
     (if (case max_attempts of None \<Rightarrow> False | Some m \<Rightarrow> attempts \<ge> m) then Some (Inr False)
      else
        (case ps of
           [] \<Rightarrow> None
         | p # ps' \<Rightarrow>
             (case heard_text p of
                Inl e \<Rightarrow> Some (Inl e)
              | Inr text \<Rightarrow>
                  (case text of
                     None \<Rightarrow> fallback_loop wakeword max_attempts (attempts + 1) ps'
                   | Some t \<Rightarrow>
                       if t \<noteq> [] \<and> wake_match wakeword t then Some (Inr True)
                       else fallback_loop wakeword max_attempts (attempts + 1) ps'))))"

declare fallback_loop.simps [simp del]

text \<open>
  \<open>has_listen\<close> says that \<open>dynamicbot\<close> was imported and has a \<open>listen\<close> attribute.
\<close>

definition listen_for_wakeword_fallback ::
    "bool \<Rightarrow> string \<Rightarrow> int option \<Rightarrow> attempt list \<Rightarrow> (exn + bool) option" where
  "listen_for_wakeword_fallback has_listen wakeword max_attempts ps =
     (if \<not> has_listen then Some (Inr False)
      else fallback_loop wakeword max_attempts 0 ps)"

section \<open>Derived notions and concrete inputs\<close>

text \<open>
  Lines 54 to 58 of \<open>start_subprocess_module\<close>: the path of the script of a key, when
  the key is in the module table.
\<close>

definition script_path_of :: "os_env \<Rightarrow> string \<Rightarrow> string option" where
  "script_path_of env key =
     (case MODULE_NAMES (lower key) of
        None \<Rightarrow> None
      | Some script \<Rightarrow> Some (path_join env (BASE_DIR env) script))"

text \<open>\<open>posixpath.join\<close> on two components, for the concrete environments below.\<close>

definition posix_join :: "string \<Rightarrow> string \<Rightarrow> string" where
  "posix_join a b =
     (if b \<noteq> [] \<and> hd b = CHR ''/'' then b
      else if a = [] \<or> last a = CHR ''/'' then a @ b
      else a @ ''/'' @ b)"

text \<open>
  An environment in which every script exists, every spawn gives the process 42, every
  process is still running and every call on a process returns normally.
\<close>

definition env_ok :: os_env where
  "env_ok =
     \<lparr>BASE_DIR = ''/opt/bott'', path_join = posix_join, path_exists = (\<lambda>p. True),
      popen = (\<lambda>p. Inr 42), poll = (\<lambda>h. None), terminate = (\<lambda>h. None),
      wait = (\<lambda>h. None), kill = (\<lambda>h. None)\<rparr>"

text \<open>Variations: the scripts are gone; the spawn raises; \<open>terminate\<close> raises; the
  processes have exited with code 0.\<close>

definition env_no_script :: os_env where
  "env_no_script = env_ok\<lparr>path_exists := (\<lambda>p. False)\<rparr>"

definition env_spawn_fails :: os_env where
  "env_spawn_fails = env_ok\<lparr>popen := (\<lambda>p. Inl OSError)\<rparr>"

definition env_terminate_raises :: os_env where
  "env_terminate_raises = env_ok\<lparr>terminate := (\<lambda>h. Some OSError)\<rparr>"

definition env_exited :: os_env where
  "env_exited = env_ok\<lparr>poll := (\<lambda>h. Some 0)\<rparr>"

text \<open>Registries: empty, and with one process registered for \<open>face\<close> or for \<open>hand\<close>.\<close>

definition s_empty :: state where
  "s_empty = \<lparr>running_procs = Map.empty, effects = []\<rparr>"

definition s_face :: state where
  "s_face = \<lparr>running_procs = [''face'' \<mapsto> 7], effects = []\<rparr>"


section \<open>Facts about the string model\<close>

lemma str_in_iff: "str_in w t \<longleftrightarrow> (\<exists>ps ss. t = ps @ w @ ss)"
proof (induction t)
  case Nil
  then show ?case by auto
next
  case (Cons c t)
  show ?case
  proof
    assume "str_in w (c # t)"
    then consider "prefix w (c # t)" | "str_in w t" by auto
    then show "\<exists>ps ss. c # t = ps @ w @ ss"
    proof cases
      case 1
      then obtain ss where "c # t = w @ ss" by (auto simp: prefix_def)
      then have "c # t = [] @ w @ ss" by simp
      then show ?thesis by blast
    next
      case 2
      with Cons.IH obtain ps ss where "t = ps @ w @ ss" by blast
      then have "c # t = (c # ps) @ w @ ss" by simp
      then show ?thesis by blast
    qed
  next
    assume "\<exists>ps ss. c # t = ps @ w @ ss"
    then obtain ps ss where eq: "c # t = ps @ w @ ss" by blast
    show "str_in w (c # t)"
    proof (cases ps)
      case Nil
      with eq have "prefix w (c # t)" by (simp add: prefix_def)
      then show ?thesis by simp
    next
      case (Cons p ps')
      with eq have "t = ps' @ w @ ss" by simp
      with Cons.IH have "str_in w t" by blast
      then show ?thesis by simp
    qed
  qed
qed

lemma lower_Nil_iff: "lower text = [] \<longleftrightarrow> text = []"
  by (simp add: lower_def)

lemma str_in_nonempty: "str_in w t \<Longrightarrow> w \<noteq> [] \<Longrightarrow> t \<noteq> []"
  by (cases t) auto


section \<open>Facts about the command interpreter\<close>

lemma parse_nonempty:
  "text \<noteq> [] \<Longrightarrow> \<not> str_in ''status'' (lower text) \<Longrightarrow>
   parse_start_stop_command text =
     ((if any_in stop_verbs (lower text) then Some ''stop''
       else if any_in start_verbs (lower text) then Some ''start'' else None),
      (if any_in chat_nouns (lower text) then Some ''chatbot''
       else if any_in face_nouns (lower text) then Some ''face''
       else if any_in hand_nouns (lower text) then Some ''hand'' else None))"
  by (simp add: parse_start_stop_command_def Let_def any_in_def chat_nouns_def face_nouns_def)

lemma any_in_Nil: "[] \<notin> set ws \<Longrightarrow> \<not> any_in ws []"
  by (induction ws) (auto simp: any_in_def)

section \<open>Claims about the command interpreter\<close>

text \<open>
  Claim C2. Whenever \<open>status\<close> occurs anywhere in the lowercased text, the classification
  is the pair \<open>(status, None)\<close>, whatever verbs and nouns the text contains besides.
\<close>

theorem status_overrides:
  assumes "str_in ''status'' (lower text)"
  shows "parse_start_stop_command text = (Some ''status'', None)"
proof -
  from assms have "lower text \<noteq> []" by (auto dest: str_in_nonempty)
  then have "text \<noteq> []" by (simp add: lower_Nil_iff)
  with assms show ?thesis by (simp add: parse_start_stop_command_def Let_def)
qed

theorem status_overrides_witness:
  "str_in ''status'' (lower ''Stop the chat STATUS please'')
   \<and> parse_start_stop_command ''Stop the chat STATUS please'' = (Some ''status'', None)"
proof -
  have h: "str_in ''status'' (lower ''Stop the chat STATUS please'')" by code_simp
  from h status_overrides [OF h] show ?thesis by simp
qed

text \<open>
  Claim C3. A text that contains a start verb and a stop verb, and not \<open>status\<close>, is
  classified with the action \<open>stop\<close>: the stop verbs are tested second and overwrite.
\<close>

theorem stop_wins:
  assumes "any_in start_verbs (lower text)" and "any_in stop_verbs (lower text)"
    and "\<not> str_in ''status'' (lower text)"
  shows "fst (parse_start_stop_command text) = Some ''stop''"
proof -
  from assms(2) have "lower text \<noteq> []"
    by (auto simp: any_in_def stop_verbs_def dest: str_in_nonempty)
  then have "text \<noteq> []" by (simp add: lower_Nil_iff)
  with assms show ?thesis by (simp add: parse_nonempty)
qed

theorem stop_wins_witness:
  "any_in start_verbs (lower ''Start and then STOP the hand'')
   \<and> any_in stop_verbs (lower ''Start and then STOP the hand'')
   \<and> \<not> str_in ''status'' (lower ''Start and then STOP the hand'')
   \<and> fst (parse_start_stop_command ''Start and then STOP the hand'') = Some ''stop''"
proof -
  have h1: "any_in start_verbs (lower ''Start and then STOP the hand'')" by code_simp
  have h2: "any_in stop_verbs (lower ''Start and then STOP the hand'')" by code_simp
  have h3: "\<not> str_in ''status'' (lower ''Start and then STOP the hand'')" by code_simp
  from h1 h2 h3 stop_wins [OF h1 h2 h3] show ?thesis by simp
qed

text \<open>
  Claim C6 as stated fails: the text \<open>face\<close> has no action verb and no \<open>status\<close>, and
  its classification is \<open>(None, face)\<close>, the target being kept.
\<close>

theorem none_or_counterexample:
  "\<not> str_in ''status'' (lower ''face'')
   \<and> \<not> any_in start_verbs (lower ''face'') \<and> \<not> any_in stop_verbs (lower ''face'')
   \<and> parse_start_stop_command ''face'' = (None, Some ''face'')
   \<and> parse_start_stop_command ''face'' \<noteq> (None, None)"
  by code_simp

text \<open>
  Claim C6, amended. For a text without \<open>status\<close>: when no action verb is found the
  action is \<open>None\<close> and the target is the one the nouns give (\<open>chatbot\<close>, \<open>face\<close> or
  \<open>hand\<close> by the first group that matches, \<open>None\<close> when no group does); when no target
  noun is found the target is \<open>None\<close> and the action is the one the verbs give (\<open>stop\<close>
  when a stop verb occurs, otherwise \<open>start\<close> when a start verb occurs, otherwise
  \<open>None\<close>); and when neither is found the result is \<open>(None, None)\<close>.
\<close>

theorem none_componentwise:
  assumes "\<not> str_in ''status'' (lower text)"
  shows "(\<not> any_in start_verbs (lower text) \<and> \<not> any_in stop_verbs (lower text)
            \<longrightarrow> parse_start_stop_command text =
                 (None,
                  if any_in chat_nouns (lower text) then Some ''chatbot''
                  else if any_in face_nouns (lower text) then Some ''face''
                  else if any_in hand_nouns (lower text) then Some ''hand''
                  else None))
       \<and> (\<not> any_in chat_nouns (lower text) \<and> \<not> any_in face_nouns (lower text)
            \<and> \<not> any_in hand_nouns (lower text)
            \<longrightarrow> parse_start_stop_command text =
                 (if any_in stop_verbs (lower text) then Some ''stop''
                  else if any_in start_verbs (lower text) then Some ''start''
                  else None,
                  None))
       \<and> (\<not> any_in start_verbs (lower text) \<and> \<not> any_in stop_verbs (lower text)
            \<and> \<not> any_in chat_nouns (lower text) \<and> \<not> any_in face_nouns (lower text)
            \<and> \<not> any_in hand_nouns (lower text)
            \<longrightarrow> parse_start_stop_command text = (None, None))"
proof (cases "text = []")
  case True
  then have "lower text = []" by (simp add: lower_Nil_iff)
  with True show ?thesis
    by (simp add: parse_start_stop_command_def any_in_Nil start_verbs_def stop_verbs_def
        chat_nouns_def face_nouns_def hand_nouns_def)
next
  case False
  with assms show ?thesis by (simp add: parse_nonempty)
qed

theorem none_componentwise_witness:
  "\<not> str_in ''status'' (lower ''the Face'')
   \<and> \<not> any_in start_verbs (lower ''the Face'') \<and> \<not> any_in stop_verbs (lower ''the Face'')
   \<and> parse_start_stop_command ''the Face'' = (None, Some ''face'')
   \<and> \<not> str_in ''status'' (lower ''Launch it'')
   \<and> \<not> any_in chat_nouns (lower ''Launch it'') \<and> \<not> any_in face_nouns (lower ''Launch it'')
   \<and> \<not> any_in hand_nouns (lower ''Launch it'')
   \<and> parse_start_stop_command ''Launch it'' = (Some ''start'', None)
   \<and> \<not> str_in ''status'' (lower ''Hello there'')
   \<and> \<not> any_in start_verbs (lower ''Hello there'') \<and> \<not> any_in stop_verbs (lower ''Hello there'')
   \<and> \<not> any_in chat_nouns (lower ''Hello there'') \<and> \<not> any_in face_nouns (lower ''Hello there'')
   \<and> \<not> any_in hand_nouns (lower ''Hello there'')
   \<and> parse_start_stop_command ''Hello there'' = (None, None)"
proof -
  have f0: "\<not> str_in ''status'' (lower ''the Face'')" by code_simp
  have f1: "\<not> any_in start_verbs (lower ''the Face'') \<and> \<not> any_in stop_verbs (lower ''the Face'')"
    by code_simp
  have f2: "\<not> any_in chat_nouns (lower ''the Face'') \<and> any_in face_nouns (lower ''the Face'')"
    by code_simp
  from none_componentwise [OF f0] f1 f2
  have rf: "parse_start_stop_command ''the Face'' = (None, Some ''face'')" by simp
  have l0: "\<not> str_in ''status'' (lower ''Launch it'')" by code_simp
  have l1: "\<not> any_in chat_nouns (lower ''Launch it'') \<and> \<not> any_in face_nouns (lower ''Launch it'')
    \<and> \<not> any_in hand_nouns (lower ''Launch it'')" by code_simp
  have l2: "\<not> any_in stop_verbs (lower ''Launch it'') \<and> any_in start_verbs (lower ''Launch it'')"
    by code_simp
  from none_componentwise [OF l0] l1 l2
  have rl: "parse_start_stop_command ''Launch it'' = (Some ''start'', None)" by simp
  have h0: "\<not> str_in ''status'' (lower ''Hello there'')" by code_simp
  have h1: "\<not> any_in start_verbs (lower ''Hello there'') \<and> \<not> any_in stop_verbs (lower ''Hello there'')"
    by code_simp
  have h2: "\<not> any_in chat_nouns (lower ''Hello there'') \<and> \<not> any_in face_nouns (lower ''Hello there'')
    \<and> \<not> any_in hand_nouns (lower ''Hello there'')" by code_simp
  from none_componentwise [OF h0] h1 h2
  have rh: "parse_start_stop_command ''Hello there'' = (None, None)" by blast
  from f0 f1 rf l0 l1 rl h0 h1 h2 rh show ?thesis by blast
qed

text \<open>
  Claim C7 as stated fails: \<open>chat status\<close> contains the noun \<open>chat\<close>, and the target
  returned is \<open>None\<close>, because of the override by \<open>status\<close>.
\<close>

theorem target_counterexample:
  "any_in chat_nouns (lower ''chat status'')
   \<and> snd (parse_start_stop_command ''chat status'') = None
   \<and> snd (parse_start_stop_command ''chat status'') \<noteq> Some ''chatbot''"
  by code_simp

text \<open>
  Claim C7, amended. For a text without \<open>status\<close> the target follows the first group
  that matches: \<open>chatbot\<close> when one of chat, assistant, bot occurs; otherwise \<open>face\<close>
  when one of face, recognize, recognition occurs; otherwise \<open>hand\<close> when one of hand,
  servo, object, finger occurs.
\<close>

theorem target_first_match:
  assumes "\<not> str_in ''status'' (lower text)"
  shows "(any_in chat_nouns (lower text)
            \<longrightarrow> snd (parse_start_stop_command text) = Some ''chatbot'')
       \<and> (\<not> any_in chat_nouns (lower text) \<and> any_in face_nouns (lower text)
            \<longrightarrow> snd (parse_start_stop_command text) = Some ''face'')
       \<and> (\<not> any_in chat_nouns (lower text) \<and> \<not> any_in face_nouns (lower text)
            \<and> any_in hand_nouns (lower text)
            \<longrightarrow> snd (parse_start_stop_command text) = Some ''hand'')"
proof (cases "text = []")
  case True
  then have "lower text = []" by (simp add: lower_Nil_iff)
  then show ?thesis
    by (simp add: any_in_Nil chat_nouns_def face_nouns_def hand_nouns_def)
next
  case False
  with assms show ?thesis by (simp add: parse_nonempty)
qed

theorem target_first_match_witness:
  "\<not> str_in ''status'' (lower ''open the Face and hand bot'')
   \<and> any_in chat_nouns (lower ''open the Face and hand bot'')
   \<and> any_in face_nouns (lower ''open the Face and hand bot'')
   \<and> any_in hand_nouns (lower ''open the Face and hand bot'')
   \<and> snd (parse_start_stop_command ''open the Face and hand bot'') = Some ''chatbot''"
proof -
  have h: "\<not> str_in ''status'' (lower ''open the Face and hand bot'')" by code_simp
  have n: "any_in chat_nouns (lower ''open the Face and hand bot'')
    \<and> any_in face_nouns (lower ''open the Face and hand bot'')
    \<and> any_in hand_nouns (lower ''open the Face and hand bot'')" by code_simp
  from h n target_first_match [OF h] show ?thesis by blast
qed

section \<open>Facts about the process registry\<close>

lemma MODULE_NAMES_None_iff:
  "MODULE_NAMES k = None \<longleftrightarrow> k \<notin> {''face'', ''hand'', ''object'', ''servo''}"
  by (simp add: MODULE_NAMES_def)

lemma MODULE_NAMES_nonempty: "MODULE_NAMES k = Some script \<Longrightarrow> script \<noteq> []"
  by (auto simp: MODULE_NAMES_def split: if_splits)

lemma start_known:
  assumes "MODULE_NAMES (lower key) = Some script"
  shows "start_subprocess_module env key s =
     (let script_path = path_join env (BASE_DIR env) script in
      if \<not> path_exists env script_path then (Inr None, s)
      else
        (case running_procs s (lower key) of
           Some proc \<Rightarrow>
             if poll env proc = None then (Inr (Some proc), s)
             else spawn_module env (lower key) script_path s
         | None \<Rightarrow> spawn_module env (lower key) script_path s))"
  using assms MODULE_NAMES_nonempty [OF assms]
  by (simp add: start_subprocess_module_def Let_def)

lemma spawn_module_effects:
  "effects (snd (spawn_module env k p s)) = effects s @ [Popen p]"
  by (simp add: spawn_module_def emit_def split: sum.splits)


lemma spawn_module_fails:
  "popen env p = Inl e \<Longrightarrow> is_Exception e \<Longrightarrow>
   fst (spawn_module env k p s) = Inr None
   \<and> running_procs (snd (spawn_module env k p s)) = running_procs s"
  by (simp add: spawn_module_def emit_def)

lemma stop_removes_when_no_raise:
  assumes "running_procs s (lower key) = Some h"
    and "poll env h = None \<Longrightarrow> terminate env h = None"
    and "poll env h = None \<Longrightarrow> wait env h = None \<or> (wait env h = Some TimeoutExpired \<and> kill env h = None)"
  shows "fst (stop_subprocess_module env key s) = Inr True
    \<and> running_procs (snd (stop_subprocess_module env key s)) (lower key) = None"
  using assms
  by (cases "poll env h") (auto simp add: stop_subprocess_module_def stop_finish_def Let_def emit_def)

section \<open>Claims about the process registry\<close>

text \<open>
  Claim C10. For a key whose lowercase form is none of face, hand, object, servo,
  \<open>start_subprocess_module\<close> returns \<open>None\<close> and the state is the one it was given:
  the registry is unchanged and no process call was made.
\<close>

theorem unknown_key_start:
  assumes "lower key \<notin> {''face'', ''hand'', ''object'', ''servo''}"
  shows "start_subprocess_module env key s = (Inr None, s)"
proof -
  from assms have "MODULE_NAMES (lower key) = None" using MODULE_NAMES_None_iff by blast
  then show ?thesis by (simp add: start_subprocess_module_def)
qed

theorem unknown_key_start_witness:
  "lower ''ChatBot'' \<notin> {''face'', ''hand'', ''object'', ''servo''}
   \<and> start_subprocess_module env_ok ''ChatBot'' s_face = (Inr None, s_face)"
proof -
  have h: "lower ''ChatBot'' \<notin> {''face'', ''hand'', ''object'', ''servo''}" by code_simp
  from h unknown_key_start [OF h] show ?thesis by simp
qed

text \<open>
  Claim C9. When the handle registered for the key belongs to a process that has already
  exited, \<open>stop_subprocess_module\<close> returns \<open>True\<close>, the handle is removed from the
  registry and nothing else changes: no call of \<open>terminate\<close>, \<open>wait\<close> or \<open>kill\<close> is
  made.
\<close>

theorem stop_exited:
  assumes "running_procs s (lower key) = Some h" and "poll env h \<noteq> None"
  shows "stop_subprocess_module env key s =
           (Inr True, s\<lparr>running_procs := (running_procs s)(lower key := None)\<rparr>)"
  using assms by (auto simp add: stop_subprocess_module_def stop_finish_def Let_def)

theorem stop_exited_witness:
  "running_procs s_face (lower ''Face'') = Some 7 \<and> poll env_exited 7 \<noteq> None
   \<and> stop_subprocess_module env_exited ''Face'' s_face = (Inr True, s_empty)"
proof -
  have h1: "running_procs s_face (lower ''Face'') = Some 7" by code_simp
  have h2: "poll env_exited 7 \<noteq> None" by (simp add: env_exited_def env_ok_def)
  have lo: "lower ''Face'' = ''face''" by code_simp
  have e: "s_face\<lparr>running_procs := (running_procs s_face)(lower ''Face'' := None)\<rparr> = s_empty"
    by (simp add: lo s_face_def s_empty_def)
  from h1 h2 stop_exited [OF h1 h2] e show ?thesis by simp
qed

text \<open>
  Claim C1 says that a stop always removes the handle, also when a termination step
  raises. The code does not: with a running process registered for \<open>face\<close> and
  \<open>terminate\<close> raising \<open>OSError\<close>, \<open>stop_subprocess_module\<close> returns \<open>False\<close> from its
  handler, the handle stays in the registry and the status of \<open>face\<close> is still
  \<open>running\<close>. (The paths on which nothing raises do remove it, see
  \<open>stop_removes_when_no_raise\<close>.)
\<close>

theorem stop_keeps_handle_when_terminate_raises:
  "stop_subprocess_module env_terminate_raises ''face'' s_face
     = (Inr False, s_face\<lparr>effects := [Terminate 7]\<rparr>)
   \<and> running_procs (snd (stop_subprocess_module env_terminate_raises ''face'' s_face)) ''face'' = Some 7
   \<and> status_of env_terminate_raises
         (snd (stop_subprocess_module env_terminate_raises ''face'' s_face)) ''face'' = ''running''"
proof -
  have lo: "lower ''face'' = ''face''" by code_simp
  have r: "stop_subprocess_module env_terminate_raises ''face'' s_face
     = (Inr False, s_face\<lparr>effects := [Terminate 7]\<rparr>)"
    by (simp add: stop_subprocess_module_def lo s_face_def env_terminate_raises_def env_ok_def
        stop_failed_def emit_def)
  show ?thesis
    unfolding r by (simp add: status_of_def s_face_def env_terminate_raises_def env_ok_def)
qed




text \<open>
  Claim C8. When the script of the key does not exist on disk, or the spawn is attempted
  and raises \<open>OSError\<close>, \<open>start_subprocess_module\<close> returns \<open>None\<close> to its caller (no
  exception escapes) and the registry is unchanged.
\<close>

theorem start_failure_returns_None:
  assumes "(script_path_of env key = Some p \<and> \<not> path_exists env p)
         \<or> (effects (snd (start_subprocess_module env key s)) = effects s @ [Popen p]
            \<and> popen env p = Inl OSError)"
  shows "fst (start_subprocess_module env key s) = Inr None
       \<and> running_procs (snd (start_subprocess_module env key s)) = running_procs s"
proof (cases "MODULE_NAMES (lower key)")
  case None
  then show ?thesis by (simp add: start_subprocess_module_def)
next
  case (Some script)
  let ?p = "path_join env (BASE_DIR env) script"
  from assms show ?thesis
  proof
    assume "script_path_of env key = Some p \<and> \<not> path_exists env p"
    with Some have "\<not> path_exists env ?p" by (simp add: script_path_of_def)
    then show ?thesis by (simp add: start_known [OF Some])
  next
    assume f: "effects (snd (start_subprocess_module env key s)) = effects s @ [Popen p]
            \<and> popen env p = Inl OSError"
    then have sp: "start_subprocess_module env key s = spawn_module env (lower key) ?p s"
      by (auto simp: start_known [OF Some] Let_def split: if_splits option.splits)
    with f have "p = ?p" by (simp add: spawn_module_effects)
    with f have "popen env ?p = Inl OSError" by simp
    then show ?thesis using sp spawn_module_fails [of env ?p OSError "lower key" s] by simp
  qed
qed

theorem start_failure_returns_None_witness:
  "script_path_of env_no_script ''servo'' = Some ''/opt/bott/objectdetection.py''
   \<and> \<not> path_exists env_no_script ''/opt/bott/objectdetection.py''
   \<and> fst (start_subprocess_module env_no_script ''servo'' s_empty) = Inr None
   \<and> effects (snd (start_subprocess_module env_spawn_fails ''face'' s_empty))
       = effects s_empty @ [Popen ''/opt/bott/facerecognition.py'']
   \<and> popen env_spawn_fails ''/opt/bott/facerecognition.py'' = Inl OSError
   \<and> fst (start_subprocess_module env_spawn_fails ''face'' s_empty) = Inr None"
proof -
  have a1: "script_path_of env_no_script ''servo'' = Some ''/opt/bott/objectdetection.py''"
    by code_simp
  have a2: "\<not> path_exists env_no_script ''/opt/bott/objectdetection.py''"
    by (simp add: env_no_script_def env_ok_def)
  have b1: "effects (snd (start_subprocess_module env_spawn_fails ''face'' s_empty))
       = effects s_empty @ [Popen ''/opt/bott/facerecognition.py'']" by code_simp
  have b2: "popen env_spawn_fails ''/opt/bott/facerecognition.py'' = Inl OSError"
    by (simp add: env_spawn_fails_def env_ok_def)
  from a1 a2 b1 b2
    start_failure_returns_None [of env_no_script "''servo''" "''/opt/bott/objectdetection.py''" s_empty]
    start_failure_returns_None [of env_spawn_fails "''face''" "''/opt/bott/facerecognition.py''" s_empty]
  show ?thesis by blast
qed

section \<open>Facts about the wake gate\<close>

lemma strip_Nil: "strip [] = []"
  by (simp add: strip_def)

lemma fallback_loop_Nil:
  "fallback_loop w ma n [] =
     (if (case ma of None \<Rightarrow> False | Some m \<Rightarrow> n \<ge> m) then Some (Inr False) else None)"
  by (subst fallback_loop.simps) simp

lemma fallback_loop_heard:
  assumes "heard_text p = Inr (Some text)"
    and "\<not> (case ma of None \<Rightarrow> False | Some m \<Rightarrow> n \<ge> m)"
  shows "fallback_loop w ma n (p # ps) =
     (if text \<noteq> [] \<and> wake_match w text then Some (Inr True)
      else fallback_loop w ma (n + 1) ps)"
  using assms by (subst fallback_loop.simps) simp

section \<open>Claims about the wake gate\<close>

text \<open>
  Claim C4. An utterance heard during fallback wake listening triggers the gate exactly
  when its lowercased, trimmed form is the wake phrase, or begins with the wake phrase
  followed by a space. First for the gate run on one heard utterance with a budget of one
  attempt; then at any pass of the loop whose budget is not used up: the loop returns
  \<open>True\<close> at once when the test holds, and otherwise ignores the utterance and goes on
  with the next pass. (An utterance is heard when the text is not empty; for a wake
  phrase that is not empty the statement holds for the empty text as well.)
\<close>

theorem wake_gate_strict:
  assumes "text \<noteq> [] \<or> wakeword \<noteq> []"
  shows "(listen_for_wakeword_fallback True wakeword (Some 1) [(Returns (Some text), fb)]
            = Some (Inr True)
          \<longleftrightarrow> strip (lower text) = wakeword
              \<or> prefix (wakeword @ '' '') (strip (lower text)))
       \<and> (heard_text p = Inr (Some text) \<and> (\<forall>m. max_attempts = Some m \<longrightarrow> attempts < m)
          \<longrightarrow> fallback_loop wakeword max_attempts attempts (p # ps)
              = (if strip (lower text) = wakeword
                    \<or> prefix (wakeword @ '' '') (strip (lower text))
                 then Some (Inr True)
                 else fallback_loop wakeword max_attempts (attempts + 1) ps))"
proof -
  have m: "text \<noteq> [] \<and> wake_match wakeword text
      \<longleftrightarrow> strip (lower text) = wakeword \<or> prefix (wakeword @ '' '') (strip (lower text))"
  proof (cases "text = []")
    case True
    with assms have "wakeword \<noteq> []" by simp
    with True show ?thesis by (auto simp: lower_def strip_Nil)
  next
    case False
    then show ?thesis by (simp add: wake_match_def startswith_def Let_def)
  qed
  have a: "listen_for_wakeword_fallback True wakeword (Some 1) [(Returns (Some text), fb)]
      = (if text \<noteq> [] \<and> wake_match wakeword text then Some (Inr True) else Some (Inr False))"
    by (simp add: listen_for_wakeword_fallback_def fallback_loop_heard fallback_loop_Nil)
  have b: "fallback_loop wakeword max_attempts attempts (p # ps)
      = (if text \<noteq> [] \<and> wake_match wakeword text then Some (Inr True)
         else fallback_loop wakeword max_attempts (attempts + 1) ps)"
    if "heard_text p = Inr (Some text)" and "\<forall>m. max_attempts = Some m \<longrightarrow> attempts < m"
    using that by (intro fallback_loop_heard) (auto split: option.splits)
  from a b m show ?thesis by auto
qed


theorem wake_gate_strict_witness:
  "listen_for_wakeword_fallback True ''jarvis'' (Some 1) [(Returns (Some ''Jarvis''), Raises TypeError)]
     = Some (Inr True)
   \<and> listen_for_wakeword_fallback True ''jarvis'' (Some 1)
       [(Returns (Some '' Jarvis turn on the light ''), Raises TypeError)] = Some (Inr True)
   \<and> listen_for_wakeword_fallback True ''jarvis'' (Some 1)
       [(Returns (Some ''jarvisson''), Raises TypeError)] \<noteq> Some (Inr True)
   \<and> listen_for_wakeword_fallback True ''jarvis'' (Some 1)
       [(Returns (Some ''please say jarvis now''), Raises TypeError)] \<noteq> Some (Inr True)
   \<and> fallback_loop ''jarvis'' None 0
       [(Returns (Some ''please say jarvis now''), Raises TypeError),
        (Raises TypeError, Returns (Some ''jarvis stop''))] = Some (Inr True)"
proof -
  have n: "''jarvis'' \<noteq> []" by simp
  have e1: "strip (lower ''Jarvis'') = ''jarvis''" by code_simp
  have e2: "prefix (''jarvis'' @ '' '') (strip (lower '' Jarvis turn on the light ''))" by code_simp
  have e3: "\<not> (strip (lower ''jarvisson'') = ''jarvis''
      \<or> prefix (''jarvis'' @ '' '') (strip (lower ''jarvisson'')))" by code_simp
  have e4: "\<not> (strip (lower ''please say jarvis now'') = ''jarvis''
      \<or> prefix (''jarvis'' @ '' '') (strip (lower ''please say jarvis now'')))" by code_simp
  have e5: "prefix (''jarvis'' @ '' '') (strip (lower ''jarvis stop''))" by code_simp
  have h1: "heard_text (Returns (Some ''please say jarvis now''), Raises TypeError)
      = Inr (Some ''please say jarvis now'')" by simp
  have h2: "heard_text (Raises TypeError, Returns (Some ''jarvis stop'')) = Inr (Some ''jarvis stop'')"
    by simp
  have b: "\<forall>m. (None :: int option) = Some m \<longrightarrow> (0::int) < m" by simp
  have b': "\<forall>m. (None :: int option) = Some m \<longrightarrow> (0::int) + 1 < m" by simp
  note W = wake_gate_strict [where wakeword = "''jarvis''", OF disjI2 [OF n]]
  from W [of "''Jarvis''" "Raises TypeError"] e1
  have r1: "listen_for_wakeword_fallback True ''jarvis'' (Some 1)
      [(Returns (Some ''Jarvis''), Raises TypeError)] = Some (Inr True)" by blast
  from W [of "'' Jarvis turn on the light ''" "Raises TypeError"] e2
  have r2: "listen_for_wakeword_fallback True ''jarvis'' (Some 1)
      [(Returns (Some '' Jarvis turn on the light ''), Raises TypeError)] = Some (Inr True)" by blast
  from W [of "''jarvisson''" "Raises TypeError"] e3
  have r3: "listen_for_wakeword_fallback True ''jarvis'' (Some 1)
      [(Returns (Some ''jarvisson''), Raises TypeError)] \<noteq> Some (Inr True)" by blast
  from W [of "''please say jarvis now''" "Raises TypeError"] e4
  have r4: "listen_for_wakeword_fallback True ''jarvis'' (Some 1)
      [(Returns (Some ''please say jarvis now''), Raises TypeError)] \<noteq> Some (Inr True)" by blast
  have s2: "fallback_loop ''jarvis'' None (0 + 1)
       [(Raises TypeError, Returns (Some ''jarvis stop''))] = Some (Inr True)"
    using W [of "''jarvis stop''" _ "(Raises TypeError, Returns (Some ''jarvis stop''))" None "0 + 1" "[]"]
      h2 b' e5 by simp
  have r5: "fallback_loop ''jarvis'' None 0
       [(Returns (Some ''please say jarvis now''), Raises TypeError),
        (Raises TypeError, Returns (Some ''jarvis stop''))] = Some (Inr True)"
    using W [of "''please say jarvis now''" _
        "(Returns (Some ''please say jarvis now''), Raises TypeError)" None 0
        "[(Raises TypeError, Returns (Some ''jarvis stop''))]"]
      h1 b e4 s2 by simp
  from r1 r2 r3 r4 r5 show ?thesis by blast
qed

end
